theory Spec2Isabelle
  imports Complex_Main
begin

section \<open>JavaScript numbers\<close>

text \<open>
  The source computes on the JavaScript type \<open>number\<close>. A value of that type is a finite
  number, \<open>NaN\<close>, \<open>+Infinity\<close> or \<open>-Infinity\<close>. Finite values are kept as exact
  rationals. The functions of the profit floor engine are meant for cent and basis-point
  amounts far inside the range where doubles represent integers and their products exactly,
  and are modelled with exact arithmetic; the sign of zero is not modelled. The rounding of
  doubles and their overflow are modelled where the source multiplies by an arbitrary factor,
  in \<open>Money.mul\<close> and \<open>Money.mulBps\<close> (section Money). The non-finite values are modelled
  because the source produces one itself (\<open>Number.POSITIVE_INFINITY\<close>) and computes with it.
\<close>

datatype number = Num rat | NaN | PosInf | NegInf

instantiation number :: "{plus, minus, times, inverse, ord}"
begin

fun plus_number :: "number \<Rightarrow> number \<Rightarrow> number" where
  "plus_number (Num a) (Num b) = Num (a + b)"
| "plus_number NaN _ = NaN"
| "plus_number _ NaN = NaN"
| "plus_number PosInf NegInf = NaN"
| "plus_number NegInf PosInf = NaN"
| "plus_number PosInf _ = PosInf"
| "plus_number _ PosInf = PosInf"
| "plus_number NegInf _ = NegInf"
| "plus_number _ NegInf = NegInf"

fun minus_number :: "number \<Rightarrow> number \<Rightarrow> number" where
  "minus_number (Num a) (Num b) = Num (a - b)"
| "minus_number NaN _ = NaN"
| "minus_number _ NaN = NaN"
| "minus_number PosInf PosInf = NaN"
| "minus_number NegInf NegInf = NaN"
| "minus_number PosInf _ = PosInf"
| "minus_number _ PosInf = NegInf"
| "minus_number NegInf _ = NegInf"
| "minus_number _ NegInf = PosInf"

fun times_number :: "number \<Rightarrow> number \<Rightarrow> number" where
  "times_number (Num a) (Num b) = Num (a * b)"
| "times_number NaN _ = NaN"
| "times_number _ NaN = NaN"
| "times_number PosInf (Num b) = (if b = 0 then NaN else if 0 < b then PosInf else NegInf)"
| "times_number NegInf (Num b) = (if b = 0 then NaN else if 0 < b then NegInf else PosInf)"
| "times_number (Num a) PosInf = (if a = 0 then NaN else if 0 < a then PosInf else NegInf)"
| "times_number (Num a) NegInf = (if a = 0 then NaN else if 0 < a then NegInf else PosInf)"
| "times_number PosInf PosInf = PosInf"
| "times_number PosInf NegInf = NegInf"
| "times_number NegInf PosInf = NegInf"
| "times_number NegInf NegInf = PosInf"

fun divide_number :: "number \<Rightarrow> number \<Rightarrow> number" where
  "divide_number (Num a) (Num b) =
     (if b \<noteq> 0 then Num (a / b)
      else if a = 0 then NaN else if 0 < a then PosInf else NegInf)"
| "divide_number NaN _ = NaN"
| "divide_number _ NaN = NaN"
| "divide_number (Num a) PosInf = Num 0"
| "divide_number (Num a) NegInf = Num 0"
| "divide_number PosInf (Num b) = (if 0 \<le> b then PosInf else NegInf)"
| "divide_number NegInf (Num b) = (if 0 \<le> b then NegInf else PosInf)"
| "divide_number PosInf PosInf = NaN"
| "divide_number PosInf NegInf = NaN"
| "divide_number NegInf PosInf = NaN"
| "divide_number NegInf NegInf = NaN"

fun inverse_number :: "number \<Rightarrow> number" where
  "inverse_number (Num a) = (if a \<noteq> 0 then Num (1 / a) else PosInf)"
| "inverse_number NaN = NaN"
| "inverse_number PosInf = Num 0"
| "inverse_number NegInf = Num 0"

fun less_eq_number :: "number \<Rightarrow> number \<Rightarrow> bool" where
  "less_eq_number (Num a) (Num b) = (a \<le> b)"
| "less_eq_number NaN _ = False"
| "less_eq_number _ NaN = False"
| "less_eq_number NegInf _ = True"
| "less_eq_number (Num a) PosInf = True"
| "less_eq_number PosInf PosInf = True"
| "less_eq_number (Num a) NegInf = False"
| "less_eq_number PosInf (Num b) = False"
| "less_eq_number PosInf NegInf = False"

fun less_number :: "number \<Rightarrow> number \<Rightarrow> bool" where
  "less_number (Num a) (Num b) = (a < b)"
| "less_number NaN _ = False"
| "less_number _ NaN = False"
| "less_number PosInf _ = False"
| "less_number (Num a) NegInf = False"
| "less_number NegInf NegInf = False"
| "less_number (Num a) PosInf = True"
| "less_number NegInf (Num b) = True"
| "less_number NegInf PosInf = True"

instance ..

end

text \<open>\<open>Math.round\<close> rounds to the nearest integer, a tie towards \<open>+Infinity\<close>;
  \<open>Math.ceil\<close> and \<open>Math.floor\<close> are the usual ones. All three return a non-finite
  argument unchanged.\<close>

fun Math_round :: "number \<Rightarrow> number" where
  "Math_round (Num r) = Num (of_int \<lfloor>r + 1 / 2\<rfloor>)"
| "Math_round x = x"


fun Math_floor :: "number \<Rightarrow> number" where
  "Math_floor (Num r) = Num (of_int \<lfloor>r\<rfloor>)"
| "Math_floor x = x"

text \<open>A number in a condition is true unless it is zero or \<open>NaN\<close>.\<close>

fun truthy :: "number \<Rightarrow> bool" where
  "truthy (Num r) = (r \<noteq> 0)"
| "truthy NaN = False"
| "truthy PosInf = True"
| "truthy NegInf = True"

text \<open>\<open>Number.isInteger\<close> and \<open>Number.isFinite\<close>.\<close>

fun isInteger :: "number \<Rightarrow> bool" where
  "isInteger (Num r) = (of_int \<lfloor>r\<rfloor> = r)"
| "isInteger x = False"


text \<open>An optional field or parameter: \<open>None\<close> is \<open>undefined\<close>; \<open>orDefault\<close> is the
  default of a destructuring pattern or parameter, and of \<open>??\<close>.\<close>

fun orDefault :: "'a option \<Rightarrow> 'a \<Rightarrow> 'a" where
  "orDefault None d = d"
| "orDefault (Some v) d = v"


section \<open>The profit floor engine (lib/econ.ts)\<close>

datatype Platform = etsy | ebay | gumroad | shopify | tiktok_shop | stripe_links | other

datatype ProductKind = physical | digital | service | flip

datatype error =
    PriceMustBePositive
  | CurrencyMismatch
  | InvalidCents
  | RangeError

subsection \<open>Data\<close>

record FeePreset =
  pctBps :: number
  fixedCents :: number
  label :: string

record Breakdown =
  feeLabel :: string
  platformPctBps :: number
  fixedFeeCents :: number

record EconResult =
  priceCents :: number
  feesCents :: number
  bufferCents :: number
  cogsCents :: number
  shippingCents :: number
  packagingCents :: number
  profitCents :: number
  marginBps :: number
  pass :: bool
  floorBps :: number
  breakdown :: Breakdown

text \<open>\<open>EconInputs\<close> without its price (\<open>Omit<EconInputs, 'priceCents'>\<close>) is the record
  \<open>BaseInputs\<close>, and \<open>EconInputs\<close> extends it by the price. The field \<open>country\<close> is
  metadata that no function reads; it is left out.\<close>

record BaseInputs =
  cogsCents :: number
  shippingCents :: number
  packagingCents :: "number option"
  platform :: Platform
  kind :: ProductKind
  overridePctBps :: "number option"
  overrideFixedCents :: "number option"
  bufferBps :: "number option"
  floorBps :: "number option"

record EconInputs = BaseInputs +
  priceCents :: number

fun DEFAULT_FLOORS_BPS :: "ProductKind \<Rightarrow> number" where
  "DEFAULT_FLOORS_BPS physical = Num 3000"
| "DEFAULT_FLOORS_BPS digital = Num 7000"
| "DEFAULT_FLOORS_BPS service = Num 2500"
| "DEFAULT_FLOORS_BPS flip = Num 2500"

definition DEFAULT_BUFFER_BPS :: number where
  "DEFAULT_BUFFER_BPS = Num 300"

text \<open>The table has an entry for every platform, so the fallback
  \<open>?? PLATFORM_FEES.other\<close> of the source is never taken for a value of the type.\<close>

fun PLATFORM_FEES :: "Platform \<Rightarrow> FeePreset" where
  "PLATFORM_FEES etsy =
     \<lparr>pctBps = Num 650 + Num 325, fixedCents = Num 0, label = ''Etsy + payment (~9.75%)''\<rparr>"
| "PLATFORM_FEES ebay =
     \<lparr>pctBps = Num 1300, fixedCents = Num 0, label = ''eBay final value (avg)''\<rparr>"
| "PLATFORM_FEES gumroad =
     \<lparr>pctBps = Num 1000, fixedCents = Num 30, label = ''Gumroad 10% + $0.30''\<rparr>"
| "PLATFORM_FEES shopify =
     \<lparr>pctBps = Num 290, fixedCents = Num 30, label = ''Stripe 2.9% + $0.30''\<rparr>"
| "PLATFORM_FEES tiktok_shop =
     \<lparr>pctBps = Num 600, fixedCents = Num 0, label = ''TikTok Shop (~6%)''\<rparr>"
| "PLATFORM_FEES stripe_links =
     \<lparr>pctBps = Num 290, fixedCents = Num 30, label = ''Stripe 2.9% + $0.30''\<rparr>"
| "PLATFORM_FEES other =
     \<lparr>pctBps = Num 300, fixedCents = Num 30, label = ''Generic PSP 3% + $0.30''\<rparr>"

subsection \<open>Fees and evaluation\<close>

definition mulBps :: "number \<Rightarrow> number \<Rightarrow> number" where
  "mulBps amountCents rateBps = Math_round ((amountCents * rateBps) / Num 10000)"

text \<open>The result object \<open>{feesCents, pctBps, fixedCents, label}\<close> is a tuple in that order.\<close>

definition computeFeesCents ::
  "number \<Rightarrow> Platform \<Rightarrow> number option \<Rightarrow> number option \<Rightarrow> number \<times> number \<times> number \<times> string" where
  "computeFeesCents price plat overridePct overrideFixed =
     (let preset = PLATFORM_FEES plat;
          pct = orDefault overridePct (pctBps preset);
          fixed = orDefault overrideFixed (fixedCents preset);
          fees = mulBps price pct + fixed
      in (fees, pct, fixed, label preset))"

definition evaluateEcon :: "EconInputs \<Rightarrow> error + EconResult" where
  "evaluateEcon input =
     (let price = EconInputs.priceCents input;
          cogs = BaseInputs.cogsCents input;
          shipping = BaseInputs.shippingCents input;
          packaging = orDefault (BaseInputs.packagingCents input) (Num 0);
          buffer = orDefault (bufferBps input) DEFAULT_BUFFER_BPS;
          floor = orDefault (BaseInputs.floorBps input) (DEFAULT_FLOORS_BPS (kind input))
      in if price \<le> Num 0 then Inl PriceMustBePositive
         else
           (let (fees, pct, fixed, lbl) =
                  computeFeesCents price (platform input)
                    (overridePctBps input) (overrideFixedCents input);
                bufferC = mulBps price buffer;
                profit = price - (cogs + shipping + packaging + fees + bufferC);
                margin = Math_round ((profit * Num 10000) / price);
                passes = (margin \<ge> floor)
            in Inr \<lparr>EconResult.priceCents = price,
                    feesCents = fees,
                    bufferCents = bufferC,
                    EconResult.cogsCents = cogs,
                    EconResult.shippingCents = shipping,
                    EconResult.packagingCents = packaging,
                    profitCents = profit,
                    marginBps = margin,
                    pass = passes,
                    EconResult.floorBps = floor,
                    breakdown = \<lparr>feeLabel = lbl, platformPctBps = pct, fixedFeeCents = fixed\<rparr>\<rparr>))"



subsection \<open>Charm prices\<close>

datatype Charm = C99 | C95 | C90 | CNone

text \<open>\<open>C99\<close>, \<open>C95\<close>, \<open>C90\<close> and \<open>CNone\<close> are the strings \<open>'.99'\<close>, \<open>'.95'\<close>,
  \<open>'.90'\<close> and \<open>'none'\<close>.\<close>

fun endings :: "Charm \<Rightarrow> number" where
  "endings C99 = Num 99"
| "endings C95 = Num 95"
| "endings C90 = Num 90"
| "endings CNone = Num 0"

text \<open>The local function \<open>ensure\<close> of \<open>roundToCharm\<close>; an absent \<open>minCents\<close> is falsy.\<close>

fun ensure :: "number option \<Rightarrow> number \<Rightarrow> number" where
  "ensure None n = n"
| "ensure (Some minCents) n = (if truthy minCents \<and> n < minCents then minCents else n)"

definition roundToCharm :: "number \<Rightarrow> Charm option \<Rightarrow> number option \<Rightarrow> number" where
  "roundToCharm price charmOpt minCents =
     (let charm = orDefault charmOpt C99
      in if charm = CNone then ensure minCents price
         else
           (let dollars = Math_floor (price / Num 100);
                target = dollars * Num 100 + endings charm
            in if target \<ge> price then ensure minCents target
               else ensure minCents ((dollars + Num 1) * Num 100 + endings charm)))"

subsection \<open>Price ladder\<close>

text \<open>\<open>{...baseInput, priceCents: p, cogsCents: baseInput.cogsCents}\<close>\<close>

definition withPrice :: "BaseInputs \<Rightarrow> number \<Rightarrow> EconInputs" where
  "withPrice baseInput p =
     \<lparr>cogsCents = BaseInputs.cogsCents baseInput,
      shippingCents = BaseInputs.shippingCents baseInput,
      packagingCents = BaseInputs.packagingCents baseInput,
      platform = platform baseInput,
      kind = kind baseInput,
      overridePctBps = overridePctBps baseInput,
      overrideFixedCents = overrideFixedCents baseInput,
      bufferBps = bufferBps baseInput,
      floorBps = BaseInputs.floorBps baseInput,
      priceCents = p\<rparr>"

text \<open>\<open>Array.from(new Set(xs))\<close>: the elements in the order of their first occurrence.\<close>

definition fromSet :: "'a list \<Rightarrow> 'a list" where
  "fromSet xs = fold (\<lambda>x acc. if x \<in> set acc then acc else acc @ [x]) xs []"





section \<open>Money (lib/pricing.ts)\<close>

datatype CurrencyCode = USD | AUD | NZD | CAD | EUR | GBP | JPY | SGD | HKD

fun DECIMALS :: "CurrencyCode \<Rightarrow> nat" where
  "DECIMALS JPY = 0"
| "DECIMALS c = 2"

text \<open>\<open>cents\<close> is a \<open>bigint\<close>: an unbounded integer.\<close>

record Money =
  cents :: int
  currency :: CurrencyCode

text \<open>\<open>Math.trunc\<close> followed by \<open>BigInt\<close>, on a finite number.\<close>

definition trunc :: "rat \<Rightarrow> int" where
  "trunc r = (if 0 \<le> r then \<lfloor>r\<rfloor> else \<lceil>r\<rceil>)"

text \<open>\<open>Money.fromCents\<close>, for an argument of type \<open>number\<close>.\<close>

fun Money_fromCents :: "number \<Rightarrow> CurrencyCode \<Rightarrow> error + Money" where
  "Money_fromCents (Num r) cur = Inr \<lparr>cents = trunc r, currency = cur\<rparr>"
| "Money_fromCents x cur = Inl InvalidCents"

text \<open>\<open>BigInt(x)\<close> throws a \<open>RangeError\<close> unless \<open>x\<close> is an integer.\<close>

fun BigInt :: "number \<Rightarrow> error + int" where
  "BigInt (Num r) = (if of_int \<lfloor>r\<rfloor> = r then Inr \<lfloor>r\<rfloor> else Inl RangeError)"
| "BigInt x = Inl RangeError"

subsection \<open>Double arithmetic\<close>

text \<open>
  \<open>Money.mul\<close> and \<open>Money.mulBps\<close> multiply by an arbitrary factor, so the rounding of
  doubles and their overflow decide what they return. \<open>binary64 r\<close> is the double nearest to
  the real number \<open>r\<close> (IEEE 754 binary64, round to nearest, ties to even): 53 significant
  bits, exponents from \<open>-1022\<close> (below that the spacing stays \<open>2^-1074\<close>), and an infinity
  when the rounded value reaches \<open>2^1024\<close>. \<open>log2i n\<close> is the integer logarithm of a positive
  integer, \<open>floorLog2 a\<close> that of a positive rational.
\<close>

definition pow2 :: "int \<Rightarrow> rat" where
  "pow2 e = (if 0 \<le> e then 2 ^ nat e else 1 / 2 ^ nat (- e))"

function log2i :: "int \<Rightarrow> int" where
  "log2i n = (if n < 2 then 0 else 1 + log2i (n div 2))"
  by pat_completeness auto
termination
  by (relation "measure nat") auto

declare log2i.simps [simp del]

definition floorLog2 :: "rat \<Rightarrow> int" where
  "floorLog2 a =
     (let (p, q) = quotient_of a;
          e0 = log2i p - log2i q
      in if pow2 e0 \<le> a then e0 else e0 - 1)"

definition roundHalfEven :: "rat \<Rightarrow> int" where
  "roundHalfEven y =
     (let n = \<lfloor>y\<rfloor>; f = y - of_int n
      in if f < 1 / 2 then n else if 1 / 2 < f then n + 1 else if even n then n else n + 1)"

definition binary64 :: "rat \<Rightarrow> number" where
  "binary64 r =
     (if r = 0 then Num 0
      else
        (let a = \<bar>r\<bar>;
             e = max (floorLog2 a) (- 1022);
             q = pow2 (e - 52);
             v = of_int (roundHalfEven (a / q)) * q
         in if pow2 1024 \<le> v then (if 0 < r then PosInf else NegInf)
            else Num (if 0 < r then v else - v)))"

text \<open>The product and the quotient of two doubles: the exact result, rounded. With a
  non-finite operand, or a zero divisor, they are the operations of \<open>number\<close>.\<close>

fun dtimes :: "number \<Rightarrow> number \<Rightarrow> number" where
  "dtimes (Num a) (Num b) = binary64 (a * b)"
| "dtimes x y = x * y"

fun ddivide :: "number \<Rightarrow> number \<Rightarrow> number" where
  "ddivide (Num a) (Num b) = (if b \<noteq> 0 then binary64 (a / b) else Num a / Num b)"
| "ddivide x y = x / y"

text \<open>\<open>Number(b)\<close> for a \<open>bigint\<close>: the nearest double.\<close>

definition Number :: "int \<Rightarrow> number" where
  "Number b = binary64 (of_int b)"

definition assertSameCurrency :: "Money \<Rightarrow> Money \<Rightarrow> error + unit" where
  "assertSameCurrency this that =
     (if currency this \<noteq> currency that then Inl CurrencyMismatch else Inr ())"

definition Money_add :: "Money \<Rightarrow> Money \<Rightarrow> error + Money" where
  "Money_add this that =
     (case assertSameCurrency this that of
        Inl e \<Rightarrow> Inl e
      | Inr _ \<Rightarrow> Inr \<lparr>cents = cents this + cents that, currency = currency this\<rparr>)"

definition Money_sub :: "Money \<Rightarrow> Money \<Rightarrow> error + Money" where
  "Money_sub this that =
     (case assertSameCurrency this that of
        Inl e \<Rightarrow> Inl e
      | Inr _ \<Rightarrow> Inr \<lparr>cents = cents this - cents that, currency = currency this\<rparr>)"

definition Money_mul :: "Money \<Rightarrow> number \<Rightarrow> error + Money" where
  "Money_mul this n =
     (case BigInt (Math_round (dtimes (Number (cents this)) n)) of
        Inl e \<Rightarrow> Inl e
      | Inr c \<Rightarrow> Inr \<lparr>cents = c, currency = currency this\<rparr>)"

definition Money_mulBps :: "Money \<Rightarrow> number \<Rightarrow> error + Money" where
  "Money_mulBps this bps =
     (case BigInt (Math_round (dtimes (Number (cents this)) (ddivide bps (Num 10000)))) of
        Inl e \<Rightarrow> Inl e
      | Inr c \<Rightarrow> Inr \<lparr>cents = c, currency = currency this\<rparr>)"

subsection \<open>Parsing\<close>

definition isDigit :: "char \<Rightarrow> bool" where
  "isDigit c = (c \<in> set ''0123456789'')"

definition digitVal :: "char \<Rightarrow> int" where
  "digitVal c = int (of_char c) - 48"

definition isSpace :: "char \<Rightarrow> bool" where
  "isSpace c = (c \<in> set [CHR '' '', CHR 0x09, CHR 0x0A, CHR 0x0B, CHR 0x0C, CHR 0x0D])"

text \<open>\<open>parseInt(s, 10)\<close>: leading white space, an optional sign, then the longest run of
  decimal digits; \<open>NaN\<close> when that run is empty.\<close>

definition parseInt10 :: "string \<Rightarrow> number" where
  "parseInt10 s =
     (let t = dropWhile isSpace s;
          (sign, u) = (case t of
                         c # r \<Rightarrow> if c = CHR ''-'' then (- 1, r)
                                  else if c = CHR ''+'' then (1, r) else (1, t)
                       | [] \<Rightarrow> (1, t));
          ds = takeWhile isDigit u
      in if ds = [] then NaN
         else Num (of_int (sign * foldl (\<lambda>acc c. 10 * acc + digitVal c) 0 ds)))"

text \<open>\<open>s.split(c)\<close> for a one-character separator: never an empty list.\<close>

fun split :: "char \<Rightarrow> string \<Rightarrow> string list" where
  "split c [] = [[]]"
| "split c (x # xs) =
     (if x = c then [] # split c xs
      else (case split c xs of
              [] \<Rightarrow> [[x]]
            | y # ys \<Rightarrow> (x # y) # ys))"

text \<open>\<open>Money.parse\<close>. The pattern \<open>[int, fracRaw = '']\<close> takes the first two pieces
  (\<open>intPart\<close> is the source's \<open>int\<close>).\<close>

definition Money_parse :: "string \<Rightarrow> CurrencyCode \<Rightarrow> error + Money" where
  "Money_parse str cur =
     (let s = filter (\<lambda>c. isDigit c \<or> c = CHR ''.'') str
      in if s = [] then Money_fromCents (Num 0) cur
         else
           (let d = DECIMALS cur
            in if d = 0 then Money_fromCents (parseInt10 s) cur
               else
                 (case split (CHR ''.'') s of
                    [] \<Rightarrow> Money_fromCents NaN cur
                  | intPart # rest \<Rightarrow>
                      (let fracRaw = (case rest of [] \<Rightarrow> [] | f # _ \<Rightarrow> f);
                           frac = take d (fracRaw @ ''00'');
                           cents = parseInt10 intPart * Num (10 ^ d)
                                   + parseInt10 (if frac = [] then ''0'' else frac)
                       in Money_fromCents cents cur))))"

section \<open>Notions used in the statements\<close>

text \<open>The values the functions of the engine compute with after their defaults have been
  applied: the packaging cost, the fee rate and fixed fee (override or preset), the buffer
  and the floor.\<close>

definition effPackaging :: "'a BaseInputs_scheme \<Rightarrow> number" where
  "effPackaging b = orDefault (BaseInputs.packagingCents b) (Num 0)"

definition effPct :: "'a BaseInputs_scheme \<Rightarrow> number" where
  "effPct b = orDefault (overridePctBps b) (pctBps (PLATFORM_FEES (platform b)))"

definition effFixed :: "'a BaseInputs_scheme \<Rightarrow> number" where
  "effFixed b = orDefault (overrideFixedCents b) (fixedCents (PLATFORM_FEES (platform b)))"

definition effBuffer :: "'a BaseInputs_scheme \<Rightarrow> number" where
  "effBuffer b = orDefault (bufferBps b) DEFAULT_BUFFER_BPS"

definition effFloor :: "'a BaseInputs_scheme \<Rightarrow> number" where
  "effFloor b = orDefault (BaseInputs.floorBps b) (DEFAULT_FLOORS_BPS (kind b))"

text \<open>Inputs for the examples: a product with the given cost of goods and shipping cost,
  sold on a platform, every optional field absent.\<close>

definition plainBase :: "rat \<Rightarrow> rat \<Rightarrow> Platform \<Rightarrow> ProductKind \<Rightarrow> BaseInputs" where
  "plainBase c s p k =
     \<lparr>cogsCents = Num c, shippingCents = Num s, packagingCents = None, platform = p, kind = k,
      overridePctBps = None, overrideFixedCents = None, bufferBps = None, floorBps = None\<rparr>"

text \<open>The example of the source's closing comment.\<close>

definition etsyExample :: EconInputs where
  "etsyExample = withPrice (plainBase 500 320 etsy physical) (Num 1490)"




text \<open>\<open>roundToCharm\<close> on finite values: the charm rounding, the guard \<open>ensure\<close>, and with
  them the candidate of a step and the fallback of the ladder.\<close>

definition charmUp :: "rat \<Rightarrow> rat \<Rightarrow> rat" where
  "charmUp e x = (if x \<le> of_int \<lfloor>x / 100\<rfloor> * 100 + e then of_int \<lfloor>x / 100\<rfloor> * 100 + e
                  else (of_int \<lfloor>x / 100\<rfloor> + 1) * 100 + e)"

definition ensureRat :: "rat \<Rightarrow> rat \<Rightarrow> rat" where
  "ensureRat m y = (if m \<noteq> 0 \<and> y < m then m else y)"

fun ending :: "Charm \<Rightarrow> rat" where
  "ending C99 = 99"
| "ending C95 = 95"
| "ending C90 = 90"
| "ending CNone = 0"

definition charmRat :: "Charm \<Rightarrow> rat \<Rightarrow> rat" where
  "charmRat c x = (if c = CNone then x else charmUp (ending c) x)"



section \<open>Basic facts\<close>

lemmas eff_defs = effPackaging_def effPct_def effFixed_def effBuffer_def effFloor_def

lemma eff_withPrice [simp]:
  "effPackaging (withPrice b x) = effPackaging b"
  "effPct (withPrice b x) = effPct b"
  "effFixed (withPrice b x) = effFixed b"
  "effBuffer (withPrice b x) = effBuffer b"
  "effFloor (withPrice b x) = effFloor b"
  "BaseInputs.cogsCents (withPrice b x) = BaseInputs.cogsCents b"
  "BaseInputs.shippingCents (withPrice b x) = BaseInputs.shippingCents b"
  "EconInputs.priceCents (withPrice b x) = x"
  "platform (withPrice b x) = platform b"
  by (simp_all add: withPrice_def eff_defs)

lemma plainBase_simps [simp]:
  "BaseInputs.cogsCents (plainBase c s p k) = Num c"
  "BaseInputs.shippingCents (plainBase c s p k) = Num s"
  "effPackaging (plainBase c s p k) = Num 0"
  "effPct (plainBase c s p k) = pctBps (PLATFORM_FEES p)"
  "effFixed (plainBase c s p k) = fixedCents (PLATFORM_FEES p)"
  "effBuffer (plainBase c s p k) = Num 300"
  "effFloor (plainBase c s p k) = DEFAULT_FLOORS_BPS k"
  "platform (plainBase c s p k) = p"
  by (simp_all add: plainBase_def eff_defs DEFAULT_BUFFER_BPS_def)



lemma etsyExample_result:
  "evaluateEcon etsyExample =
     Inr \<lparr>EconResult.priceCents = Num 1490, feesCents = Num 145, bufferCents = Num 45,
          EconResult.cogsCents = Num 500, EconResult.shippingCents = Num 320,
          EconResult.packagingCents = Num 0, profitCents = Num 480, marginBps = Num 3221,
          pass = True, EconResult.floorBps = Num 3000,
          breakdown = \<lparr>feeLabel = ''Etsy + payment (~9.75%)'', platformPctBps = Num 975,
                       fixedFeeCents = Num 0\<rparr>\<rparr>"
  by code_simp

subsection \<open>Rounding and ceiling of integer fractions\<close>





subsection \<open>Charm rounding on finite values\<close>

lemma isInteger_Num [simp]: "isInteger (Num z) = (z \<in> \<int>)"
  by (auto elim: Ints_cases)


lemma endings_Num: "endings c = Num (ending c)"
  by (cases c) simp_all


lemma roundToCharm_default: "roundToCharm x None mn = roundToCharm x (Some C99) mn"
  by (simp add: roundToCharm_def)

lemma roundToCharm_Num:
  "roundToCharm (Num x) (Some c) (Some (Num m)) = Num (ensureRat m (charmRat c x))"
  by (simp add: roundToCharm_def Let_def charmRat_def charmUp_def ensureRat_def endings_Num)

lemma roundToCharm_Num_None:
  "roundToCharm (Num x) (Some c) None = Num (charmRat c x)"
  by (simp add: roundToCharm_def Let_def charmRat_def charmUp_def endings_Num)

lemma charmUp_ceiling:
  assumes "0 \<le> e" and "e < 100"
  shows "charmUp e x = of_int \<lceil>(x - e) / 100\<rceil> * 100 + e"
proof -
  define k where "k = \<lfloor>x / 100\<rfloor>"
  have lo: "of_int k * 100 \<le> x"
    using floor_divide_lower[of 100 x] by (simp add: k_def)
  have hi: "x < (of_int k + 1) * 100"
    using floor_divide_upper[of 100 x] by (simp add: k_def)
  show ?thesis
  proof (cases "x \<le> of_int k * 100 + e")
    case True
    have "\<lceil>(x - e) / 100\<rceil> = k"
    proof (rule ceiling_unique)
      show "of_int k - 1 < (x - e) / 100" using lo assms by (simp add: field_simps)
      show "(x - e) / 100 \<le> of_int k" using True by (simp add: field_simps)
    qed
    with True show ?thesis by (simp add: charmUp_def k_def)
  next
    case False
    have "\<lceil>(x - e) / 100\<rceil> = k + 1"
    proof (rule ceiling_unique)
      show "of_int (k + 1) - 1 < (x - e) / 100" using False by (simp add: field_simps)
      show "(x - e) / 100 \<le> of_int (k + 1)" using hi assms by (simp add: field_simps)
    qed
    with False show ?thesis by (simp add: charmUp_def k_def)
  qed
qed






subsection \<open>De-duplication\<close>

lemma fromSet_fold_set:
  "set (fold (\<lambda>x acc. if x \<in> set acc then acc else acc @ [x]) xs acc) = set acc \<union> set xs"
  by (induction xs arbitrary: acc) auto

lemma fromSet_fold_distinct:
  "distinct acc \<Longrightarrow> distinct (fold (\<lambda>x acc. if x \<in> set acc then acc else acc @ [x]) xs acc)"
  by (induction xs arbitrary: acc) auto


lemma set_fromSet [simp]: "set (fromSet xs) = set xs"
  by (simp add: fromSet_def fromSet_fold_set)

lemma distinct_fromSet [simp]: "distinct (fromSet xs)"
  by (simp add: fromSet_def fromSet_fold_distinct)


subsection \<open>Integer inputs\<close>









subsection \<open>The rungs of the ladder\<close>











subsection \<open>What holds of charm rounding\<close>

lemma charmUp_bounds:
  assumes "0 \<le> e" and "e < 100"
  shows "x \<le> charmUp e x" and "charmUp e x < x + 100"
proof -
  have lo: "of_int \<lfloor>x / 100\<rfloor> * 100 \<le> x"
    using floor_divide_lower[of 100 x] by simp
  have hi: "x < (of_int \<lfloor>x / 100\<rfloor> + 1) * 100"
    using floor_divide_upper[of 100 x] by simp
  show "x \<le> charmUp e x" using hi assms by (auto simp add: charmUp_def algebra_simps)
  show "charmUp e x < x + 100" using lo assms by (auto simp add: charmUp_def algebra_simps)
qed

lemma charmUp_int:
  fixes n e :: int
  assumes "0 \<le> e" and "e < 100"
  shows "\<exists>r. charmUp (of_int e) (of_int n) = of_int r \<and> n \<le> r \<and> r < n + 100 \<and> r mod 100 = e"
proof -
  define r where "r = \<lceil>(of_int n - of_int e) / 100 :: rat\<rceil> * 100 + e"
  have eq: "charmUp (of_int e) (of_int n) = of_int r"
    using assms by (simp add: charmUp_ceiling r_def)
  have b: "(of_int n :: rat) \<le> charmUp (of_int e) (of_int n)"
    "charmUp (of_int e) (of_int n) < (of_int n :: rat) + 100"
    using assms by (simp_all add: charmUp_bounds)
  have "n \<le> r" using b(1) unfolding eq by (simp only: of_int_le_iff)
  moreover have "(of_int r :: rat) < of_int (n + 100)" using b(2) unfolding eq by simp
  then have "r < n + 100" by (simp only: of_int_less_iff)
  moreover have "r mod 100 = e" using assms by (simp add: r_def)
  ultimately show ?thesis using eq by blast
qed

text \<open>Without a minimum, \<open>roundToCharm\<close> on an integer price returns the least price that is
  not below it and ends in the charm.\<close>

lemma roundToCharm_without_min:
  assumes "c \<noteq> CNone"
  shows "\<exists>r. roundToCharm (Num (of_int n)) (Some c) None = Num (of_int r)
           \<and> n \<le> r \<and> r < n + 100 \<and> of_int (r mod 100) = ending c"
proof -
  obtain e :: int where e: "ending c = of_int e" "0 \<le> e" "e < 100"
    by (cases c) (auto intro: that[of 99] that[of 95] that[of 90] that[of 0])
  from charmUp_int[OF e(2,3), of n] obtain r where
    "charmUp (of_int e) (of_int n) = of_int r" "n \<le> r" "r < n + 100" "r mod 100 = e"
    by blast
  then show ?thesis
    using assms e(1) by (auto simp add: roundToCharm_Num_None charmRat_def)
qed

text \<open>On finite values the result is never below the price, and never below a minimum
  other than zero.\<close>

lemma roundToCharm_at_least:
  "\<exists>r. roundToCharm (Num x) (Some c) (Some (Num m)) = Num r \<and> x \<le> r \<and> (m \<noteq> 0 \<longrightarrow> m \<le> r)"
proof -
  have "x \<le> charmRat c x"
    by (cases c) (simp_all add: charmRat_def charmUp_bounds)
  then show ?thesis
    by (auto simp add: roundToCharm_Num ensureRat_def)
qed

subsection \<open>What holds of parsing\<close>

lemma isDigit_digitVal: "isDigit c \<Longrightarrow> 0 \<le> digitVal c"
  by (auto simp add: isDigit_def digitVal_def)

lemma digits_nonneg:
  "0 \<le> acc \<Longrightarrow> \<forall>c\<in>set ds. isDigit c \<Longrightarrow> 0 \<le> foldl (\<lambda>acc c. 10 * acc + digitVal c) acc ds"
  by (induction ds arbitrary: acc) (simp_all add: isDigit_digitVal)

lemma parseInt10_stripped:
  assumes "\<forall>c\<in>set t. isDigit c \<or> c = CHR ''.''"
  shows "parseInt10 t = NaN \<or> (\<exists>n\<ge>0. parseInt10 t = Num (of_int n))"
proof (cases t)
  case Nil
  then show ?thesis by (simp add: parseInt10_def)
next
  case (Cons a u)
  with assms have a: "isDigit a \<or> a = CHR ''.''" by simp
  then have ns: "\<not> isSpace a" and np: "a \<noteq> CHR ''-''" "a \<noteq> CHR ''+''"
    by (auto simp add: isDigit_def isSpace_def)
  have "0 \<le> foldl (\<lambda>acc c. 10 * acc + digitVal c) 0 (takeWhile isDigit t)"
    by (rule digits_nonneg) (auto dest: set_takeWhileD)
  then show ?thesis
    using Cons ns np by (auto simp add: parseInt10_def Let_def)
qed

lemma split_pieces_all: "\<forall>p\<in>set (split c s). set p \<subseteq> set s"
proof (induction s)
  case Nil
  then show ?case by simp
next
  case (Cons x xs)
  show ?case
  proof (cases "x = c")
    case True
    with Cons show ?thesis by auto
  next
    case False
    obtain y ys where sp: "split c xs = y # ys"
      by (cases xs; cases "split c xs") (auto split: if_splits list.splits)
    with Cons have "set y \<subseteq> set xs" and "\<forall>p\<in>set ys. set p \<subseteq> set xs" by auto
    with False sp show ?thesis by auto
  qed
qed

lemma split_pieces: "p \<in> set (split c s) \<Longrightarrow> set p \<subseteq> set s"
  using split_pieces_all by blast

lemma trunc_nonneg: "0 \<le> r \<Longrightarrow> 0 \<le> trunc r"
  by (simp add: trunc_def)

lemma fromCents_stripped:
  assumes "x = NaN \<or> (\<exists>n\<ge>0. x = Num (of_int n))" and "Money_fromCents x cur = Inr m"
  shows "0 \<le> cents m"
  using assms by (auto simp add: trunc_nonneg)

lemma Money_parse_cases:
  "Money_parse str cur =
     (if filter (\<lambda>c. isDigit c \<or> c = CHR ''.'') str = [] then Inr \<lparr>cents = 0, currency = cur\<rparr>
      else if DECIMALS cur = 0
        then Money_fromCents (parseInt10 (filter (\<lambda>c. isDigit c \<or> c = CHR ''.'') str)) cur
      else (case split (CHR ''.'') (filter (\<lambda>c. isDigit c \<or> c = CHR ''.'') str) of
              [] \<Rightarrow> Inl InvalidCents
            | intPart # rest \<Rightarrow>
                Money_fromCents
                  (parseInt10 intPart * Num 100
                   + parseInt10 (take 2 ((case rest of [] \<Rightarrow> [] | f # _ \<Rightarrow> f) @ ''00''))) cur))"
proof -
  have d: "DECIMALS cur \<noteq> 0 \<Longrightarrow> DECIMALS cur = 2" by (cases cur) simp_all
  have t: "take 2 (xs @ ''00'') \<noteq> []" for xs :: string by (cases xs) simp_all
  show ?thesis
    by (auto simp add: Money_parse_def Let_def trunc_def d t split: list.splits)
qed

lemma minus_not_kept: "\<not> (isDigit (CHR ''-'') \<or> CHR ''-'' = CHR ''.'')"
  by (simp add: isDigit_def)

lemma Money_parse_filter:
  assumes "filter (\<lambda>c. isDigit c \<or> c = CHR ''.'') s = filter (\<lambda>c. isDigit c \<or> c = CHR ''.'') t"
  shows "Money_parse s cur = Money_parse t cur"
  unfolding Money_parse_def using assms by (simp only:)

lemma Money_parse_minus: "Money_parse (CHR ''-'' # str) cur = Money_parse str cur"
  by (rule Money_parse_filter) (simp only: filter.simps minus_not_kept if_False)

lemma isDigit_zero: "isDigit (CHR ''0'')"
  by (simp add: isDigit_def)

lemma digit_or_dot_zero_pad:
  assumes "\<forall>c\<in>set xs. isDigit c \<or> c = CHR ''.''"
  shows "\<forall>c\<in>set (take 2 (xs @ ''00'')). isDigit c \<or> c = CHR ''.''"
proof
  fix c assume "c \<in> set (take 2 (xs @ ''00''))"
  then have "c \<in> set (xs @ ''00'')" by (rule in_set_takeD)
  then have "c \<in> set xs \<or> c = CHR ''0''" by auto
  with assms isDigit_zero show "isDigit c \<or> c = CHR ''.''" by blast
qed

lemma Money_parse_no_digits:
  assumes "\<forall>c\<in>set str. \<not> isDigit c \<and> c \<noteq> CHR ''.''"
  shows "Money_parse str cur = Inr \<lparr>cents = 0, currency = cur\<rparr>"
proof -
  have "filter (\<lambda>c. isDigit c \<or> c = CHR ''.'') str = []"
    using assms by (simp add: filter_empty_conv)
  then show ?thesis by (simp only: Money_parse_cases simp_thms if_True)
qed

text \<open>Whenever \<open>Money.parse\<close> returns, the amount is not negative.\<close>

lemma Money_parse_nonneg:
  assumes "Money_parse str cur = Inr m"
  shows "0 \<le> cents m"
proof -
  define s where "s = filter (\<lambda>c. isDigit c \<or> c = CHR ''.'') str"
  have sd: "\<forall>c\<in>set s. isDigit c \<or> c = CHR ''.''" by (simp add: s_def)
  note pc = Money_parse_cases[of str cur, folded s_def]
  show ?thesis
  proof (cases "s = []")
    case True
    with assms pc show ?thesis by auto
  next
    case ne: False
    show ?thesis
    proof (cases "DECIMALS cur = 0")
      case True
      with assms pc ne have "Money_fromCents (parseInt10 s) cur = Inr m" by simp
      with parseInt10_stripped[OF sd] show ?thesis by (rule fromCents_stripped)
    next
      case False
      obtain intPart rest where sp: "split (CHR ''.'') s = intPart # rest"
        by (cases s; cases "split (CHR ''.'') s") (auto split: if_splits list.splits)
      define frac where "frac = take 2 ((case rest of [] \<Rightarrow> [] | f # _ \<Rightarrow> f) @ ''00'')"
      have r: "Money_fromCents (parseInt10 intPart * Num 100 + parseInt10 frac) cur = Inr m"
        using assms pc ne False sp by (simp add: frac_def)
      have ip: "\<forall>c\<in>set intPart. isDigit c \<or> c = CHR ''.''"
        using split_pieces[of intPart "CHR ''.''" s] sd sp by auto
      have "\<forall>c\<in>set (case rest of [] \<Rightarrow> [] | f # _ \<Rightarrow> f). isDigit c \<or> c = CHR ''.''"
      proof (cases rest)
        case Nil
        then show ?thesis by simp
      next
        case (Cons f fs)
        then show ?thesis
          using split_pieces[of f "CHR ''.''" s] sd sp by auto
      qed
      then have fp: "\<forall>c\<in>set frac. isDigit c \<or> c = CHR ''.''"
        unfolding frac_def by (rule digit_or_dot_zero_pad)
      have "parseInt10 intPart * Num 100 + parseInt10 frac = NaN
          \<or> (\<exists>n\<ge>0. parseInt10 intPart * Num 100 + parseInt10 frac = Num (of_int n))"
      proof -
        consider "parseInt10 intPart = NaN" | "parseInt10 frac = NaN"
          | i f where "0 \<le> i" "0 \<le> f" "parseInt10 intPart = Num (of_int i)"
              "parseInt10 frac = Num (of_int f)"
          using parseInt10_stripped[OF ip] parseInt10_stripped[OF fp] by blast
        then show ?thesis
        proof cases
          case 1
          then show ?thesis by simp
        next
          case 2
          then show ?thesis by (cases "parseInt10 intPart") simp_all
        next
          case 3
          then have "parseInt10 intPart * Num 100 + parseInt10 frac = Num (of_int (i * 100 + f))"
            by simp
          moreover have "0 \<le> i * 100 + f" using 3 by simp
          ultimately show ?thesis by blast
        qed
      qed
      then show ?thesis using r by (rule fromCents_stripped)
    qed
  qed
qed

subsection \<open>The prices of the ladder\<close>







subsection \<open>Rounding to doubles\<close>

lemma pow2_powi: "pow2 e = 2 powi e"
  by (simp add: pow2_def power_int_def power_one_over inverse_eq_divide)

lemma pow2_pos [simp]: "0 < pow2 e"
  by (simp add: pow2_powi)

lemma pow2_nonneg_exponent: "0 \<le> e \<Longrightarrow> pow2 e = of_int (2 ^ nat e)"
  by (simp add: pow2_def)

lemma pow2_add: "pow2 (m + n) = pow2 m * pow2 n"
  by (simp add: pow2_powi power_int_add)

lemma pow2_mono: "m \<le> n \<Longrightarrow> pow2 m \<le> pow2 n"
  by (simp add: pow2_powi power_int_increasing)

lemma log2i_bounds:
  assumes "1 \<le> n"
  shows "0 \<le> log2i n \<and> 2 ^ nat (log2i n) \<le> n \<and> n < 2 * 2 ^ nat (log2i n)"
  using assms
proof (induction n rule: log2i.induct)
  case (1 n)
  show ?case
  proof (cases "n < 2")
    case True
    then have "log2i n = 0" by (subst log2i.simps) simp
    with True "1.prems" show ?thesis by simp
  next
    case False
    then have h: "1 \<le> n div 2" by simp
    from "1.IH"[OF False h] have ih: "0 \<le> log2i (n div 2)"
      "2 ^ nat (log2i (n div 2)) \<le> n div 2" "n div 2 < 2 * 2 ^ nat (log2i (n div 2))"
      by simp_all
    have l: "log2i n = 1 + log2i (n div 2)" using False by (subst log2i.simps) simp
    have n: "nat (1 + log2i (n div 2)) = Suc (nat (log2i (n div 2)))" using ih(1) by simp
    show ?thesis
      unfolding l n using ih by (simp, linarith)
  qed
qed

lemma floorLog2_le:
  assumes "0 < a"
  shows "pow2 (floorLog2 a) \<le> a"
proof -
  obtain p q where pq: "quotient_of a = (p, q)" by (cases "quotient_of a")
  then have a: "a = of_int p / of_int q" and q: "0 < q"
    by (simp_all add: quotient_of_div quotient_of_denom_pos)
  have p: "1 \<le> p"
  proof -
    have "(0::rat) < of_int p" using assms q unfolding a by (simp add: zero_less_divide_iff)
    then show ?thesis by simp
  qed
  define e0 where "e0 = log2i p - log2i q"
  have fl: "floorLog2 a = (if pow2 e0 \<le> a then e0 else e0 - 1)"
    by (simp add: floorLog2_def pq e0_def Let_def)
  show ?thesis
  proof (cases "pow2 e0 \<le> a")
    case True
    then show ?thesis by (simp add: fl)
  next
    case False
    from log2i_bounds[OF p] have lp: "0 \<le> log2i p" "(2::int) ^ nat (log2i p) \<le> p" by simp_all
    from q have "1 \<le> q" by simp
    from log2i_bounds[OF this] have lq: "0 \<le> log2i q" "q < 2 * 2 ^ nat (log2i q)" by simp_all
    have 1: "pow2 (log2i p) \<le> of_int p"
      using lp by (simp add: pow2_nonneg_exponent)
    have "(of_int q :: rat) \<le> of_int (2 * 2 ^ nat (log2i q))"
      using lq(2) by (simp only: of_int_le_iff)
    then have 2: "of_int q \<le> pow2 (log2i q + 1)"
      using lq(1) by (simp add: pow2_nonneg_exponent nat_add_distrib)
    have "pow2 (e0 - 1) * pow2 (log2i q + 1) = pow2 (log2i p)"
      by (simp add: e0_def flip: pow2_add)
    then have "pow2 (e0 - 1) * of_int q \<le> of_int p"
      using 1 2 by (smt (verit, best) mult_left_mono pow2_pos less_eq_rat_def order_trans)
    then have "pow2 (e0 - 1) \<le> a"
      using q unfolding a by (simp add: pos_le_divide_eq)
    with False show ?thesis by (simp add: fl)
  qed
qed

lemma roundHalfEven_ge:
  assumes "of_int K \<le> y"
  shows "K \<le> roundHalfEven y"
proof -
  have "K \<le> \<lfloor>y\<rfloor>" using assms by (simp add: le_floor_iff)
  then show ?thesis by (auto simp add: roundHalfEven_def Let_def)
qed

text \<open>A real number of at least \<open>2^1024\<close> has no double: it rounds to \<open>Infinity\<close>.\<close>

lemma binary64_overflow:
  assumes "pow2 1024 \<le> r"
  shows "binary64 r = PosInf"
proof -
  have rpos: "0 < r" using assms pow2_pos[of 1024] by linarith
  define e where "e = max (floorLog2 r) (- 1022)"
  define q where "q = pow2 (e - 52)"
  define n where "n = roundHalfEven (r / q)"
  have qpos: "0 < q" by (simp add: q_def)
  have "pow2 1024 \<le> of_int n * q"
  proof (cases "e \<le> 1076")
    case True
    define K :: int where "K = 2 ^ nat (1076 - e)"
    have "pow2 1024 = pow2 (1076 - e) * pow2 (e - 52)"
      by (simp flip: pow2_add)
    also have "pow2 (1076 - e) = of_int K"
      using True by (simp add: pow2_nonneg_exponent K_def)
    finally have k: "pow2 1024 = of_int K * q" by (simp add: q_def)
    then have "of_int K \<le> r / q" using assms qpos by (simp add: pos_le_divide_eq)
    then have "K \<le> n" unfolding n_def by (rule roundHalfEven_ge)
    then have "(of_int K :: rat) * q \<le> of_int n * q"
      using qpos by (intro mult_right_mono) simp_all
    with k show ?thesis by simp
  next
    case False
    then have ef: "e = floorLog2 r" by (simp add: e_def max_def split: if_splits)
    have "pow2 e \<le> r" unfolding ef using rpos by (rule floorLog2_le)
    moreover have pe: "pow2 e = of_int (2 ^ 52) * q"
    proof -
      have "pow2 e = pow2 52 * pow2 (e - 52)" by (simp flip: pow2_add)
      then show ?thesis by (simp add: q_def pow2_nonneg_exponent)
    qed
    ultimately have "of_int (2 ^ 52) \<le> r / q" using qpos by (simp add: pos_le_divide_eq)
    then have "2 ^ 52 \<le> n" unfolding n_def by (rule roundHalfEven_ge)
    then have "(of_int (2 ^ 52) :: rat) * q \<le> of_int n * q"
      using qpos by (intro mult_right_mono) simp_all
    moreover have "pow2 1024 \<le> pow2 e" using False by (intro pow2_mono) simp
    ultimately show ?thesis using pe by simp
  qed
  then show ?thesis
    using rpos by (simp add: binary64_def Let_def e_def q_def n_def)
qed

text \<open>Two products of \<open>Money.mul\<close> and \<open>Money.mulBps\<close>: 100 cents times \<open>2^1020\<close> is beyond
  the doubles; and 25 cents at 5800 bps give 14 cents, since \<open>5800 / 10000\<close> is rounded to a
  double below 0.58 and the product to 14.499999999999998, where the exact product is 14.5.\<close>

lemma Number_100: "Number 100 = Num 100"
  by code_simp

lemma product_overflow: "binary64 (100 * pow2 1020) = PosInf"
proof -
  have "pow2 1024 = pow2 4 * pow2 1020" by (simp flip: pow2_add)
  also have "pow2 4 = 16" by (simp add: pow2_def)
  also have "16 * pow2 1020 \<le> 100 * pow2 1020"
    by (intro mult_right_mono) (simp_all add: less_imp_le)
  finally show ?thesis by (rule binary64_overflow)
qed

lemma Money_mulBps_rounds_rate:
  "Money_mulBps \<lparr>cents = 25, currency = USD\<rparr> (Num 5800) = Inr \<lparr>cents = 14, currency = USD\<rparr>"
  by code_simp

section \<open>The claims\<close>









text \<open>C4. \<open>roundToCharm\<close> is to return a price that is not below \<open>priceCents\<close>, not below
  \<open>minCents\<close>, and ends in the requested charm. For the price 100, the charm \<open>.99\<close> and the
  minimum 250 it returns 250, the minimum itself, which does not end in 99; without the
  minimum it returns 199.\<close>

theorem roundToCharm_min_breaks_ending:
  "roundToCharm (Num 100) (Some C99) (Some (Num 250)) = Num 250
   \<and> roundToCharm (Num 100) (Some C99) None = Num 199"
  by code_simp




text \<open>C6. \<open>evaluateEcon\<close> throws exactly when \<open>priceCents <= 0\<close>; for every other input,
  whatever its costs, buffer and floor, it returns a result.\<close>

theorem evaluateEcon_throws_iff:
  "(evaluateEcon i = Inl PriceMustBePositive) = (EconInputs.priceCents i \<le> Num 0)
   \<and> (\<exists>r. evaluateEcon i = Inr r) = (\<not> EconInputs.priceCents i \<le> Num 0)"
  by (auto simp: evaluateEcon_def Let_def split: prod.splits)

text \<open>C7, as stated: \<open>mul\<close> and \<open>mulBps\<close> always return a \<open>Money\<close>. For the factor \<open>NaN\<close>
  or an infinite one, and for a finite factor whose product with the cents overflows (100 cents
  times \<open>2^1020\<close>), the product is not finite and \<open>BigInt\<close> throws a \<open>RangeError\<close>.\<close>

theorem Money_mul_counterexample:
  "Money_mul \<lparr>cents = 100, currency = USD\<rparr> NaN = Inl RangeError
   \<and> Money_mulBps \<lparr>cents = 100, currency = USD\<rparr> PosInf = Inl RangeError
   \<and> Money_mul \<lparr>cents = 100, currency = USD\<rparr> (Num (pow2 1020)) = Inl RangeError"
  by (simp add: Money_mul_def Money_mulBps_def Number_100 product_overflow)

text \<open>C7, amended: \<open>add\<close> and \<open>sub\<close> throw exactly when the currencies differ, and
  otherwise return the sum (the difference) of the cents in the receiver's currency.
  \<open>mul\<close> and \<open>mulBps\<close> throw a \<open>RangeError\<close> exactly when the double product
  \<open>Number(cents) * n\<close> (for \<open>mulBps\<close>, \<open>Number(cents) * (bps / 10000)\<close>) is not finite, and
  otherwise return a \<open>Money\<close> in the receiver's currency whose cents are that product rounded
  by \<open>Math.round\<close>. The product is a double: 25 cents at 5800 bps give 14 cents, not the 15
  of the exact product 14.5.\<close>

theorem Money_arithmetic:
  "Money_add a b =
     (if currency a \<noteq> currency b then Inl CurrencyMismatch
      else Inr \<lparr>cents = cents a + cents b, currency = currency a\<rparr>)
   \<and> Money_sub a b =
     (if currency a \<noteq> currency b then Inl CurrencyMismatch
      else Inr \<lparr>cents = cents a - cents b, currency = currency a\<rparr>)
   \<and> Money_mul a n =
     (case dtimes (Number (cents a)) n of
        Num r \<Rightarrow> Inr \<lparr>cents = round r, currency = currency a\<rparr>
      | NaN \<Rightarrow> Inl RangeError | PosInf \<Rightarrow> Inl RangeError | NegInf \<Rightarrow> Inl RangeError)
   \<and> Money_mulBps a n =
     (case dtimes (Number (cents a)) (ddivide n (Num 10000)) of
        Num r \<Rightarrow> Inr \<lparr>cents = round r, currency = currency a\<rparr>
      | NaN \<Rightarrow> Inl RangeError | PosInf \<Rightarrow> Inl RangeError | NegInf \<Rightarrow> Inl RangeError)
   \<and> Money_mulBps \<lparr>cents = 25, currency = USD\<rparr> (Num 5800) = Inr \<lparr>cents = 14, currency = USD\<rparr>"
proof -
  have r: "BigInt (Math_round x) =
      (case x of Num r \<Rightarrow> Inr (round r) | NaN \<Rightarrow> Inl RangeError
       | PosInf \<Rightarrow> Inl RangeError | NegInf \<Rightarrow> Inl RangeError)" for x
    by (cases x) (simp_all add: round_def)
  have "Money_mul a n =
     (case dtimes (Number (cents a)) n of
        Num r \<Rightarrow> Inr \<lparr>cents = round r, currency = currency a\<rparr>
      | NaN \<Rightarrow> Inl RangeError | PosInf \<Rightarrow> Inl RangeError | NegInf \<Rightarrow> Inl RangeError)"
    by (simp add: Money_mul_def r split: number.splits)
  moreover have "Money_mulBps a n =
     (case dtimes (Number (cents a)) (ddivide n (Num 10000)) of
        Num r \<Rightarrow> Inr \<lparr>cents = round r, currency = currency a\<rparr>
      | NaN \<Rightarrow> Inl RangeError | PosInf \<Rightarrow> Inl RangeError | NegInf \<Rightarrow> Inl RangeError)"
    by (simp add: Money_mulBps_def r split: number.splits)
  ultimately show ?thesis
    using Money_mulBps_rounds_rate
    by (simp add: Money_add_def Money_sub_def assertSameCurrency_def)
qed




text \<open>C9. The example of the source: at a price of 1490 cents, with 500 cents of cost and 320
  cents of shipping on Etsy, a physical product has fees of 145 cents
  (\<open>round(1490 * 975 / 10000) + 0\<close>) and a floor of 3000 bps, and \<open>pass\<close> says whether the
  margin, 3221 bps, reaches 3000 bps.\<close>

theorem evaluateEcon_etsy_example:
  "\<exists>r. evaluateEcon
          \<lparr>cogsCents = Num 500, shippingCents = Num 320, packagingCents = None,
           platform = etsy, kind = physical, overridePctBps = None,
           overrideFixedCents = None, bufferBps = None, floorBps = None,
           priceCents = Num 1490\<rparr> = Inr r
     \<and> feesCents r = Num 145 \<and> EconResult.floorBps r = Num 3000
     \<and> pass r = (marginBps r \<ge> Num 3000) \<and> marginBps r = Num 3221 \<and> pass r"
proof -
  have "\<lparr>cogsCents = Num 500, shippingCents = Num 320, packagingCents = None,
         platform = etsy, kind = physical, overridePctBps = None,
         overrideFixedCents = None, bufferBps = None, floorBps = None,
         priceCents = Num 1490\<rparr> = etsyExample"
    by (simp add: etsyExample_def withPrice_def plainBase_def)
  then show ?thesis by (simp add: etsyExample_result)
qed

text \<open>C10. \<open>Money.parse\<close> is to return an amount of at least zero cents for every string.
  For a string whose first digit comes after a dot, such as \<open>.5\<close>, the integer part is empty,
  \<open>parseInt\<close> gives \<open>NaN\<close>, and \<open>Money.fromCents\<close> throws; the string \<open>0.5\<close> gives 50 cents.\<close>

theorem Money_parse_leading_dot_throws:
  "Money_parse ''.5'' USD = Inl InvalidCents
   \<and> Money_parse ''-.99'' USD = Inl InvalidCents
   \<and> Money_parse ''.'' JPY = Inl InvalidCents
   \<and> Money_parse ''0.5'' USD = Inr \<lparr>cents = 50, currency = USD\<rparr>"
  by code_simp

end
